theory Spec2Isabelle
  imports Complex_Main
begin

section \<open>Data model of \<open>pypprof/yappi_profiler.py\<close>\<close>

text \<open>
  The statistics records come from the instrumenting profiler. The converter reads the
  attributes \<open>name\<close>, \<open>module\<close>, \<open>lineno\<close>, \<open>ttot\<close>, \<open>tsub\<close> and \<open>ncall\<close> of a
  function record and of each of its child (edge) records, and probes a function record
  for the attribute \<open>children\<close> with \<open>hasattr\<close>. A function record is the extension of
  the common record by \<open>children\<close>, so that \<open>make_frame\<close> applies to both, as the
  duck-typed source does; \<open>children = None\<close> is a record without the attribute.

  The times \<open>ttot\<close> and \<open>tsub\<close> are floating-point seconds. Their type is left open
  (\<open>'t\<close>), and the floating-point expression \<open>int((ttot - tsub) * 1e9)\<close> is the
  parameter \<open>to_ns\<close> of every function below: a function from the two times to a Python
  integer. Nothing is assumed about its values. It is total: Python's \<open>int\<close> raises on
  a difference that is not finite, and the profiler reports finite times.
\<close>

record 't stat =
  name :: string
  module :: string
  lineno :: int
  ttot :: 't
  tsub :: 't
  ncall :: int

record 't func_stat = "'t stat" +
  children :: "'t stat list option"

type_synonym frame = "string \<times> string \<times> int \<times> int"

text \<open>A trace is a Python tuple of frames, the leaf frame at index 0.\<close>

type_synonym trace = "frame list"

text \<open>
  \<open>samples\<close> is the dictionary \<open>trace -> [count, value]\<close> in insertion order;
  \<open>covered_self_time\<close> is the dictionary from \<open>(name, module, lineno)\<close> to nanoseconds.
\<close>

type_synonym samples = "(trace \<times> int \<times> int) list"

type_synonym func_key = "string \<times> string \<times> int"

type_synonym coverage = "func_key \<rightharpoonup> int"

text \<open>The class \<open>YappiProfiler\<close> holds the configured clock only.\<close>

record yappi_profiler =
  clock_type :: string

text \<open>
  The encoder \<open>builder.Builder\<close> is external. The conversion hands it one call of
  \<open>populate_profile\<close> with five positional arguments; the model records them in order.
\<close>

datatype populate_profile_call =
  Populate_profile (arg_samples: samples) (arg_profile_type: string)
    (arg_unit: string) (arg_period: int) (arg_duration_ns: int)

section \<open>The conversion\<close>

definition make_frame :: "('t, 'a) stat_scheme \<Rightarrow> frame" where
  "make_frame func_stat =
     (name func_stat, module func_stat, lineno func_stat, lineno func_stat)"

text \<open>
  \<open>entry = samples[trace]; entry[0] += count; entry[1] += value\<close> on a
  \<open>defaultdict(lambda: [0, 0])\<close>: a missing trace is entered at the end with \<open>[0, 0]\<close>
  and then incremented.
\<close>

fun add_sample :: "trace \<Rightarrow> int \<Rightarrow> int \<Rightarrow> samples \<Rightarrow> samples" where
  "add_sample trace count v [] = [(trace, (0 + count, 0 + v))]"
| "add_sample trace count v ((k, (c0, v0)) # rest) =
     (if k = trace then (k, (c0 + count, v0 + v)) # rest
      else (k, (c0, v0)) # add_sample trace count v rest)"

text \<open>\<open>covered_self_time.get(key, 0)\<close>, also the read of \<open>defaultdict(int)\<close> by \<open>+=\<close>.\<close>

definition cov_get :: "coverage \<Rightarrow> func_key \<Rightarrow> int" where
  "cov_get covered_self_time key =
     (case covered_self_time key of None \<Rightarrow> 0 | Some v \<Rightarrow> v)"

text \<open>The body of the inner loop of the first pass, for one child of one caller.\<close>

definition edge_step ::
  "('t \<Rightarrow> 't \<Rightarrow> int) \<Rightarrow> frame \<Rightarrow> 't stat \<Rightarrow> samples \<times> coverage \<Rightarrow> samples \<times> coverage" where
  "edge_step to_ns caller_frame child_stat st =
     (let callee_frame = make_frame child_stat;
          self_time_ns = to_ns (ttot child_stat) (tsub child_stat);
          count = ncall child_stat;
          self_time_ns = (if self_time_ns < 0 then 0 else self_time_ns);
          trace = [callee_frame, caller_frame];
          samples = add_sample trace count self_time_ns (fst st);
          callee_key = (name child_stat, module child_stat, lineno child_stat);
          covered_self_time =
            (snd st)(callee_key \<mapsto> cov_get (snd st) callee_key + self_time_ns)
      in (samples, covered_self_time))"

text \<open>The body of the outer loop of the first pass: \<open>continue\<close> without \<open>children\<close>.\<close>

definition edges_of_func ::
  "('t \<Rightarrow> 't \<Rightarrow> int) \<Rightarrow> 't func_stat \<Rightarrow> samples \<times> coverage \<Rightarrow> samples \<times> coverage" where
  "edges_of_func to_ns func_stat st =
     (let caller_frame = make_frame func_stat
      in case children func_stat of
           None \<Rightarrow> st
         | Some cs \<Rightarrow> fold (edge_step to_ns caller_frame) cs st)"

definition first_pass ::
  "('t \<Rightarrow> 't \<Rightarrow> int) \<Rightarrow> 't func_stat list \<Rightarrow> samples \<times> coverage \<Rightarrow> samples \<times> coverage" where
  "first_pass to_ns stats st = fold (edges_of_func to_ns) stats st"

text \<open>The body of the loop of the second pass.\<close>

definition root_step ::
  "('t \<Rightarrow> 't \<Rightarrow> int) \<Rightarrow> coverage \<Rightarrow> 't func_stat \<Rightarrow> samples \<Rightarrow> samples" where
  "root_step to_ns covered_self_time func_stat samples =
     (let frame = make_frame func_stat;
          key = (name func_stat, module func_stat, lineno func_stat);
          total_self_time_ns = to_ns (ttot func_stat) (tsub func_stat);
          total_self_time_ns = (if total_self_time_ns < 0 then 0 else total_self_time_ns);
          covered_ns = cov_get covered_self_time key;
          remainder_ns = total_self_time_ns - covered_ns
      in if remainder_ns > 0 \<or> (covered_ns = 0 \<and> ncall func_stat > 0)
         then (let trace = [frame];
                   count = (if covered_ns = 0 then ncall func_stat else 0)
               in add_sample trace count remainder_ns samples)
         else samples)"

definition second_pass ::
  "('t \<Rightarrow> 't \<Rightarrow> int) \<Rightarrow> coverage \<Rightarrow> 't func_stat list \<Rightarrow> samples \<Rightarrow> samples" where
  "second_pass to_ns covered_self_time stats samples =
     fold (root_step to_ns covered_self_time) stats samples"

text \<open>
  Both passes from the empty dictionaries: the sample table that becomes
  \<open>final_samples\<close> (the comprehension only turns each \<open>[count, value]\<close> into a tuple).
\<close>

definition final_samples :: "('t \<Rightarrow> 't \<Rightarrow> int) \<Rightarrow> 't func_stat list \<Rightarrow> samples" where
  "final_samples to_ns stats =
     (let st = first_pass to_ns stats ([], Map.empty)
      in second_pass to_ns (snd st) stats (fst st))"

text \<open>
  \<open>_convert_to_pprof\<close> up to the call of the encoder. The local \<open>unit\<close> is assigned
  \<open>'nanoseconds'\<close> and not used; the third argument of the call is the literal
  \<open>'count'\<close>.
\<close>

definition convert_to_pprof ::
  "('t \<Rightarrow> 't \<Rightarrow> int) \<Rightarrow> yappi_profiler \<Rightarrow> 't func_stat list \<Rightarrow> int \<Rightarrow> populate_profile_call" where
  "convert_to_pprof to_ns self stats duration_ns =
     (let final = final_samples to_ns stats;
          profile_type = (if clock_type self = ''cpu'' then ''CPU'' else ''WALL'');
          unit = ''nanoseconds''
      in Populate_profile final profile_type ''count'' 1 duration_ns)"

text \<open>
  One reading of \<open>int((ttot - tsub) * 1e9)\<close> for concrete inputs: exact arithmetic on
  reals, and Python's \<open>int\<close>, which truncates towards zero. Doubles can give one
  nanosecond less (\<open>int((0.015 - 0.010) * 1e9)\<close> is 4999999); the times of the concrete
  inputs below are such that the doubles give the same integers as the exact reading.
\<close>

definition py_int :: "real \<Rightarrow> int" where
  "py_int x = (if x < 0 then \<lceil>x\<rceil> else \<lfloor>x\<rfloor>)"

definition exact_ns :: "real \<Rightarrow> real \<Rightarrow> int" where
  "exact_ns t s = py_int ((t - s) * 1000000000)"

section \<open>Observations on the inputs and on the sample table\<close>

text \<open>
  The identity \<open>(name, module, lineno)\<close> of a record, which the source builds as
  \<open>callee_key\<close> and \<open>key\<close>, and the clamped self-time in the words of the
  specification, \<open>max(0, nanoseconds(totalTime - subTime))\<close>.
\<close>

definition key_of :: "('t, 'a) stat_scheme \<Rightarrow> func_key" where
  "key_of s = (name s, module s, lineno s)"

definition self_time_of :: "('t \<Rightarrow> 't \<Rightarrow> int) \<Rightarrow> ('t, 'a) stat_scheme \<Rightarrow> int" where
  "self_time_of to_ns s = max 0 (to_ns (ttot s) (tsub s))"

text \<open>
  The caller-callee pairs in the order in which the first pass visits them: every
  function record \<open>F\<close> of the input with every child \<open>E\<close> of \<open>F.children\<close>;
  a record without \<open>children\<close> has none. The trace of an edge has the callee at
  index 0.
\<close>

definition edges :: "'t func_stat list \<Rightarrow> ('t func_stat \<times> 't stat) list" where
  "edges stats =
     concat (map (\<lambda>F. case children F of None \<Rightarrow> [] | Some cs \<Rightarrow> map (\<lambda>E. (F, E)) cs) stats)"

definition edge_trace :: "'t func_stat \<times> 't stat \<Rightarrow> trace" where
  "edge_trace e = [make_frame (snd e), make_frame (fst e)]"

text \<open>
  Reading the table: the count and the value stored under a trace (0 when the trace is
  absent), and sums of counts and values over the entries whose trace satisfies a
  predicate. \<open>leaf_edge f\<close> holds of the two-frame traces whose leaf frame is \<open>f\<close>.
\<close>

definition count_at :: "samples \<Rightarrow> trace \<Rightarrow> int" where
  "count_at s t = (case map_of s t of None \<Rightarrow> 0 | Some cv \<Rightarrow> fst cv)"

definition value_at :: "samples \<Rightarrow> trace \<Rightarrow> int" where
  "value_at s t = (case map_of s t of None \<Rightarrow> 0 | Some cv \<Rightarrow> snd cv)"

definition sum_counts :: "(trace \<Rightarrow> bool) \<Rightarrow> samples \<Rightarrow> int" where
  "sum_counts P s = sum_list (map (\<lambda>e. if P (fst e) then fst (snd e) else 0) s)"

definition sum_values :: "(trace \<Rightarrow> bool) \<Rightarrow> samples \<Rightarrow> int" where
  "sum_values P s = sum_list (map (\<lambda>e. if P (fst e) then snd (snd e) else 0) s)"

definition leaf_edge :: "frame \<Rightarrow> trace \<Rightarrow> bool" where
  "leaf_edge f t \<longleftrightarrow> length t = 2 \<and> hd t = f"

definition total_count :: "samples \<Rightarrow> int" where
  "total_count s = sum_list (map (\<lambda>e. fst (snd e)) s)"

text \<open>
  \<open>coveredNs\<close> of a function identity: the entry of the coverage dictionary that the
  first pass leaves, read as the second pass reads it.
\<close>

definition covered_by :: "('t \<Rightarrow> 't \<Rightarrow> int) \<Rightarrow> 't func_stat list \<Rightarrow> func_key \<Rightarrow> int" where
  "covered_by to_ns stats k = cov_get (snd (first_pass to_ns stats ([], Map.empty))) k"

text \<open>
  For the proofs, both passes are folds of \<open>add_sample\<close> over a list of
  contributions: one per edge, and one per function record that satisfies the
  condition of the second pass.
\<close>

definition add_all :: "samples \<Rightarrow> samples \<Rightarrow> samples" where
  "add_all cs s = fold (\<lambda>e. add_sample (fst e) (fst (snd e)) (snd (snd e))) cs s"

definition edge_contrib :: "('t \<Rightarrow> 't \<Rightarrow> int) \<Rightarrow> 't func_stat \<times> 't stat \<Rightarrow> trace \<times> int \<times> int" where
  "edge_contrib to_ns e = (edge_trace e, ncall (snd e), self_time_of to_ns (snd e))"

definition edge_cover :: "('t \<Rightarrow> 't \<Rightarrow> int) \<Rightarrow> func_key \<Rightarrow> ('t func_stat \<times> 't stat) list \<Rightarrow> int" where
  "edge_cover to_ns k es =
     sum_list (map (\<lambda>e. if key_of (snd e) = k then self_time_of to_ns (snd e) else 0) es)"

definition root_emits :: "('t \<Rightarrow> 't \<Rightarrow> int) \<Rightarrow> coverage \<Rightarrow> 't func_stat \<Rightarrow> bool" where
  "root_emits to_ns cov F \<longleftrightarrow>
     self_time_of to_ns F - cov_get cov (key_of F) > 0 \<or> (cov_get cov (key_of F) = 0 \<and> ncall F > 0)"

definition root_contrib :: "('t \<Rightarrow> 't \<Rightarrow> int) \<Rightarrow> coverage \<Rightarrow> 't func_stat \<Rightarrow> trace \<times> int \<times> int" where
  "root_contrib to_ns cov F =
     ([make_frame F], (if cov_get cov (key_of F) = 0 then ncall F else 0),
      self_time_of to_ns F - cov_get cov (key_of F))"

section \<open>Concrete inputs\<close>

text \<open>
  \<open>A\<close> calls \<open>B\<close> once; the edge carries 10 ms of self-time, \<open>A\<close> itself 6 ms.
  \<open>func_B\<close> is a record without the attribute \<open>children\<close>.
\<close>

definition edge_B :: "real stat" where
  "edge_B = \<lparr>name = ''B'', module = ''app.py'', lineno = 5,
             ttot = 10 / 1000, tsub = 0, ncall = 1\<rparr>"

definition func_A :: "real func_stat" where
  "func_A = \<lparr>name = ''A'', module = ''app.py'', lineno = 1,
             ttot = 16 / 1000, tsub = 10 / 1000, ncall = 1, children = Some [edge_B]\<rparr>"

definition func_B :: "real func_stat" where
  "func_B = \<lparr>name = ''B'', module = ''app.py'', lineno = 5,
             ttot = 10 / 1000, tsub = 0, ncall = 1, children = None\<rparr>"

text \<open>The same call, with a record of \<open>B\<close> whose own self-time (5 ms) is below the 10 ms of its edge.\<close>

definition func_B_short :: "real func_stat" where
  "func_B_short = \<lparr>name = ''B'', module = ''app.py'', lineno = 5,
             ttot = 5 / 1000, tsub = 0, ncall = 1, children = Some []\<rparr>"

text \<open>
  \<open>A\<close> calls \<open>B\<close> once and the clock measures no time in \<open>B\<close>: the edge and the
  record of \<open>B\<close> have \<open>ttot = tsub = 0\<close>.
\<close>

definition edge_B_zero :: "real stat" where
  "edge_B_zero = \<lparr>name = ''B'', module = ''app.py'', lineno = 5,
             ttot = 0, tsub = 0, ncall = 1\<rparr>"

definition func_A_zero :: "real func_stat" where
  "func_A_zero = \<lparr>name = ''A'', module = ''app.py'', lineno = 1,
             ttot = 5 / 1000, tsub = 0, ncall = 1, children = Some [edge_B_zero]\<rparr>"

definition func_B_zero :: "real func_stat" where
  "func_B_zero = \<lparr>name = ''B'', module = ''app.py'', lineno = 5,
             ttot = 0, tsub = 0, ncall = 1, children = Some []\<rparr>"

text \<open>Two functions defined on one source line (two lambdas) have the same identity.\<close>

definition func_L1 :: "real func_stat" where
  "func_L1 = \<lparr>name = ''<lambda>'', module = ''app.py'', lineno = 3,
             ttot = 2 / 1000, tsub = 0, ncall = 1, children = Some []\<rparr>"

definition func_L2 :: "real func_stat" where
  "func_L2 = \<lparr>name = ''<lambda>'', module = ''app.py'', lineno = 3,
             ttot = 3 / 1000, tsub = 0, ncall = 1, children = Some []\<rparr>"

text \<open>
  \<open>B\<close> is called once by \<open>A\<close> and once by \<open>C\<close>, 5 ms on each edge, and its own
  record has 12 ms of self-time: 2 ms are on no edge.
\<close>

definition edge_B_5ms :: "real stat" where
  "edge_B_5ms = \<lparr>name = ''B'', module = ''app.py'', lineno = 5,
             ttot = 5 / 1000, tsub = 0, ncall = 1\<rparr>"

definition func_A_gap :: "real func_stat" where
  "func_A_gap = \<lparr>name = ''A'', module = ''app.py'', lineno = 1,
             ttot = 6 / 1000, tsub = 5 / 1000, ncall = 1, children = Some [edge_B_5ms]\<rparr>"

definition func_C_gap :: "real func_stat" where
  "func_C_gap = \<lparr>name = ''C'', module = ''app.py'', lineno = 9,
             ttot = 8 / 1000, tsub = 5 / 1000, ncall = 1, children = Some [edge_B_5ms]\<rparr>"

definition func_B_gap :: "real func_stat" where
  "func_B_gap = \<lparr>name = ''B'', module = ''app.py'', lineno = 5,
             ttot = 12 / 1000, tsub = 0, ncall = 2, children = Some []\<rparr>"

section \<open>Sums and lookups under \<open>add_sample\<close>\<close>

lemmas conversion_defs =
  final_samples_def first_pass_def second_pass_def edges_of_func_def edge_step_def
  root_step_def make_frame_def cov_get_def Let_def

lemmas input_defs =
  edge_B_def func_A_def func_B_def func_B_short_def edge_B_zero_def func_A_zero_def
  func_B_zero_def edge_B_5ms_def func_A_gap_def func_C_gap_def func_B_gap_def
  exact_ns_def py_int_def

lemma sum_counts_Nil [simp]: "sum_counts P [] = 0"
  by (simp add: sum_counts_def)

lemma sum_counts_Cons [simp]:
  "sum_counts P (e # s) = (if P (fst e) then fst (snd e) else 0) + sum_counts P s"
  by (simp add: sum_counts_def)

lemma sum_counts_append [simp]: "sum_counts P (s @ s') = sum_counts P s + sum_counts P s'"
  by (simp add: sum_counts_def)

lemma sum_values_Nil [simp]: "sum_values P [] = 0"
  by (simp add: sum_values_def)

lemma sum_values_Cons [simp]:
  "sum_values P (e # s) = (if P (fst e) then snd (snd e) else 0) + sum_values P s"
  by (simp add: sum_values_def)

lemma sum_values_append [simp]: "sum_values P (s @ s') = sum_values P s + sum_values P s'"
  by (simp add: sum_values_def)

lemma count_at_Nil [simp]: "count_at [] t = 0"
  by (simp add: count_at_def)

lemma value_at_Nil [simp]: "value_at [] t = 0"
  by (simp add: value_at_def)

lemma cov_get_empty [simp]: "cov_get Map.empty k = 0"
  by (simp add: cov_get_def)

lemma map_of_add_sample:
  "map_of (add_sample t c v s) = (map_of s)(t \<mapsto> (count_at s t + c, value_at s t + v))"
  by (induction s) (auto simp: count_at_def value_at_def fun_eq_iff)

lemma keys_list_add_sample:
  "set (map fst (add_sample t c v s)) = insert t (set (map fst s))"
  by (induction s) force+

lemma keys_add_sample: "fst ` set (add_sample t c v s) = insert t (fst ` set s)"
  using keys_list_add_sample [of t c v s] by simp

lemma distinct_add_sample:
  "distinct (map fst s) \<Longrightarrow> distinct (map fst (add_sample t c v s))"
  by (induction s) (auto simp: keys_add_sample)

lemma count_at_add_sample:
  "count_at (add_sample t c v s) k = count_at s k + (if k = t then c else 0)"
  by (simp add: count_at_def map_of_add_sample)

lemma value_at_add_sample:
  "value_at (add_sample t c v s) k = value_at s k + (if k = t then v else 0)"
  by (simp add: value_at_def map_of_add_sample)

lemma sum_counts_add_sample:
  "sum_counts P (add_sample t c v s) = sum_counts P s + (if P t then c else 0)"
  by (induction s) auto

lemma sum_values_add_sample:
  "sum_values P (add_sample t c v s) = sum_values P s + (if P t then v else 0)"
  by (induction s) auto

lemma add_sample_changes:
  "c \<noteq> 0 \<or> v \<noteq> 0 \<Longrightarrow> add_sample t c v s \<noteq> s"
  by (induction s) (auto split: if_splits)

lemma add_sample_values_nonneg:
  "\<forall>e \<in> set s. 0 \<le> snd (snd e) \<Longrightarrow> 0 \<le> v \<Longrightarrow>
     \<forall>e \<in> set (add_sample t c v s). 0 \<le> snd (snd e)"
  by (induction s) (fastforce split: if_splits)+

lemma add_sample_counts_nonneg:
  "\<forall>e \<in> set s. 0 \<le> fst (snd e) \<Longrightarrow> 0 \<le> c \<Longrightarrow>
     \<forall>e \<in> set (add_sample t c v s). 0 \<le> fst (snd e)"
  by (induction s) (fastforce split: if_splits)+

lemma map_of_count_value:
  "map_of s t = (if t \<in> fst ` set s then Some (count_at s t, value_at s t) else None)"
proof (cases "map_of s t")
  case None
  then show ?thesis by (simp add: map_of_eq_None_iff)
next
  case (Some cv)
  then have "t \<in> fst ` set s"
    by (metis map_of_eq_None_iff option.distinct(1))
  with Some show ?thesis by (simp add: count_at_def value_at_def)
qed

subsection \<open>Lists of contributions\<close>

lemma add_all_Nil [simp]: "add_all [] s = s"
  by (simp add: add_all_def)

lemma add_all_Cons [simp]:
  "add_all (e # cs) s = add_all cs (add_sample (fst e) (fst (snd e)) (snd (snd e)) s)"
  by (simp add: add_all_def)

lemma add_all_append [simp]: "add_all (cs @ ds) s = add_all ds (add_all cs s)"
  by (simp add: add_all_def)

lemma keys_add_all: "fst ` set (add_all cs s) = fst ` set s \<union> fst ` set cs"
  by (induction cs arbitrary: s) (auto simp: keys_add_sample)

lemma distinct_add_all: "distinct (map fst s) \<Longrightarrow> distinct (map fst (add_all cs s))"
  by (induction cs arbitrary: s) (auto simp: distinct_add_sample)

lemma count_at_add_all:
  "count_at (add_all cs s) k = count_at s k + sum_counts (\<lambda>t. t = k) cs"
  by (induction cs arbitrary: s) (auto simp: count_at_add_sample)

lemma value_at_add_all:
  "value_at (add_all cs s) k = value_at s k + sum_values (\<lambda>t. t = k) cs"
  by (induction cs arbitrary: s) (auto simp: value_at_add_sample)

lemma sum_counts_add_all:
  "sum_counts P (add_all cs s) = sum_counts P s + sum_counts P cs"
  by (induction cs arbitrary: s) (auto simp: sum_counts_add_sample)

lemma sum_values_add_all:
  "sum_values P (add_all cs s) = sum_values P s + sum_values P cs"
  by (induction cs arbitrary: s) (auto simp: sum_values_add_sample)

lemma add_all_values_nonneg:
  "\<forall>e \<in> set s. 0 \<le> snd (snd e) \<Longrightarrow> \<forall>e \<in> set cs. 0 \<le> snd (snd e) \<Longrightarrow>
     \<forall>e \<in> set (add_all cs s). 0 \<le> snd (snd e)"
proof (induction cs arbitrary: s)
  case Nil
  then show ?case by simp
next
  case (Cons x cs)
  from Cons.prems have "\<forall>e \<in> set (add_sample (fst x) (fst (snd x)) (snd (snd x)) s). 0 \<le> snd (snd e)"
    by (intro add_sample_values_nonneg) auto
  with Cons.IH Cons.prems(2) show ?case by simp
qed

lemma add_all_counts_nonneg:
  "\<forall>e \<in> set s. 0 \<le> fst (snd e) \<Longrightarrow> \<forall>e \<in> set cs. 0 \<le> fst (snd e) \<Longrightarrow>
     \<forall>e \<in> set (add_all cs s). 0 \<le> fst (snd e)"
proof (induction cs arbitrary: s)
  case Nil
  then show ?case by simp
next
  case (Cons x cs)
  from Cons.prems have "\<forall>e \<in> set (add_sample (fst x) (fst (snd x)) (snd (snd x)) s). 0 \<le> fst (snd e)"
    by (intro add_sample_counts_nonneg) auto
  with Cons.IH Cons.prems(2) show ?case by simp
qed

section \<open>The first pass as a fold over the edges\<close>

lemma root_contrib_sel [simp]:
  "fst (root_contrib to_ns cov F) = [make_frame F]"
  "fst (snd (root_contrib to_ns cov F)) = (if cov_get cov (key_of F) = 0 then ncall F else 0)"
  "snd (snd (root_contrib to_ns cov F)) = self_time_of to_ns F - cov_get cov (key_of F)"
  by (simp_all add: root_contrib_def)

lemma edge_contrib_sel [simp]:
  "fst (edge_contrib to_ns e) = edge_trace e"
  "fst (snd (edge_contrib to_ns e)) = ncall (snd e)"
  "snd (snd (edge_contrib to_ns e)) = self_time_of to_ns (snd e)"
  by (simp_all add: edge_contrib_def)

lemma make_frame_eq_iff: "make_frame a = make_frame b \<longleftrightarrow> key_of a = key_of b"
  by (auto simp: make_frame_def key_of_def)

lemma edge_step_eq:
  "edge_step to_ns cf E st =
     (add_sample [make_frame E, cf] (ncall E) (self_time_of to_ns E) (fst st),
      (snd st)(key_of E \<mapsto> cov_get (snd st) (key_of E) + self_time_of to_ns E))"
  by (auto simp: edge_step_def Let_def self_time_of_def key_of_def max_def)

lemma fold_edge_step_samples:
  "fst (fold (edge_step to_ns (make_frame F)) cs st) =
     add_all (map (\<lambda>E. edge_contrib to_ns (F, E)) cs) (fst st)"
  by (induction cs arbitrary: st) (auto simp: edge_step_eq edge_contrib_def edge_trace_def)

lemma edges_Nil [simp]: "edges [] = []"
  by (simp add: edges_def)

lemma edges_Cons:
  "edges (F # stats) =
     (case children F of None \<Rightarrow> [] | Some cs \<Rightarrow> map (\<lambda>E. (F, E)) cs) @ edges stats"
  by (simp add: edges_def)

lemma first_pass_samples:
  "fst (first_pass to_ns stats st) = add_all (map (edge_contrib to_ns) (edges stats)) (fst st)"
  unfolding first_pass_def
  by (induction stats arbitrary: st)
     (auto simp: edges_Cons edges_of_func_def fold_edge_step_samples comp_def split: option.splits)

lemma fold_edge_step_cov:
  "cov_get (snd (fold (edge_step to_ns (make_frame F)) cs st)) k =
     cov_get (snd st) k + edge_cover to_ns k (map (\<lambda>E. (F, E)) cs)"
  by (induction cs arbitrary: st) (auto simp: edge_step_eq edge_cover_def cov_get_def)

lemma edge_cover_append [simp]:
  "edge_cover to_ns k (es @ fs) = edge_cover to_ns k es + edge_cover to_ns k fs"
  by (simp add: edge_cover_def)

lemma first_pass_cov:
  "cov_get (snd (first_pass to_ns stats st)) k =
     cov_get (snd st) k + edge_cover to_ns k (edges stats)"
  unfolding first_pass_def
  by (induction stats arbitrary: st)
     (auto simp: edges_Cons edges_of_func_def fold_edge_step_cov edge_cover_def split: option.splits)

lemma first_pass_fold_edges:
  "first_pass to_ns stats st =
     fold (\<lambda>e. edge_step to_ns (make_frame (fst e)) (snd e)) (edges stats) st"
proof -
  have inner: "fold (edge_step to_ns (make_frame F)) cs st =
      fold (\<lambda>e. edge_step to_ns (make_frame (fst e)) (snd e)) (map (\<lambda>E. (F, E)) cs) st"
    for F :: "'a func_stat" and cs st
    by (induction cs arbitrary: st) auto
  show ?thesis
    unfolding first_pass_def
    by (induction stats arbitrary: st)
       (auto simp: edges_Cons edges_of_func_def inner split: option.splits)
qed

lemma fold_edges_dom:
  "dom (snd (fold (\<lambda>e. edge_step to_ns (make_frame (fst e)) (snd e)) es st)) =
     dom (snd st) \<union> (\<lambda>e. key_of (snd e)) ` set es"
  by (induction es arbitrary: st) (auto simp: edge_step_eq)

lemma first_pass_dom:
  "dom (snd (first_pass to_ns stats st)) = dom (snd st) \<union> (\<lambda>e. key_of (snd e)) ` set (edges stats)"
  by (simp add: first_pass_fold_edges fold_edges_dom)

lemma covered_by_eq: "covered_by to_ns stats k = edge_cover to_ns k (edges stats)"
  by (simp add: covered_by_def first_pass_cov)

lemma edge_cover_filter:
  "edge_cover to_ns k es =
     sum_list (map (\<lambda>e. self_time_of to_ns (snd e)) (filter (\<lambda>e. key_of (snd e) = k) es))"
  by (induction es) (auto simp: edge_cover_def)

lemma edge_cover_zero:
  "\<forall>e \<in> set es. key_of (snd e) = k \<longrightarrow> self_time_of to_ns (snd e) = 0 \<Longrightarrow>
     edge_cover to_ns k es = 0"
  by (induction es) (auto simp: edge_cover_def)

lemma sum_counts_edges_filter:
  "sum_counts (\<lambda>k. k = t) (map (edge_contrib to_ns) es) =
     sum_list (map (\<lambda>e. ncall (snd e)) (filter (\<lambda>e. edge_trace e = t) es))"
  by (induction es) auto

lemma sum_values_edges_filter:
  "sum_values (\<lambda>k. k = t) (map (edge_contrib to_ns) es) =
     sum_list (map (\<lambda>e. self_time_of to_ns (snd e)) (filter (\<lambda>e. edge_trace e = t) es))"
  by (induction es) auto

lemma first_pass_lookup:
  "map_of (fst (first_pass to_ns stats ([], Map.empty))) t =
     (if t \<in> edge_trace ` set (edges stats)
      then Some (sum_list (map (\<lambda>e. ncall (snd e)) (filter (\<lambda>e. edge_trace e = t) (edges stats))),
                 sum_list (map (\<lambda>e. self_time_of to_ns (snd e))
                            (filter (\<lambda>e. edge_trace e = t) (edges stats))))
      else None)"
proof -
  have keys: "fst ` set (fst (first_pass to_ns stats ([], Map.empty))) = edge_trace ` set (edges stats)"
    by (simp add: first_pass_samples keys_add_all image_image)
  show ?thesis
    unfolding map_of_count_value [of "fst (first_pass to_ns stats ([], Map.empty))" t] keys
    by (simp add: first_pass_samples count_at_add_all value_at_add_all
        sum_counts_edges_filter sum_values_edges_filter)
qed

lemma first_pass_coverage:
  "snd (first_pass to_ns stats ([], Map.empty)) k =
     (if k \<in> (\<lambda>e. key_of (snd e)) ` set (edges stats)
      then Some (sum_list (map (\<lambda>e. self_time_of to_ns (snd e))
                            (filter (\<lambda>e. key_of (snd e) = k) (edges stats))))
      else None)"
proof (cases "k \<in> (\<lambda>e. key_of (snd e)) ` set (edges stats)")
  case True
  then have "k \<in> dom (snd (first_pass to_ns stats ([], Map.empty)))"
    by (simp add: first_pass_dom)
  then obtain v where v: "snd (first_pass to_ns stats ([], Map.empty)) k = Some v"
    by auto
  then have "v = cov_get (snd (first_pass to_ns stats ([], Map.empty))) k"
    by (simp add: cov_get_def)
  with v True show ?thesis
    by (simp add: first_pass_cov edge_cover_filter)
next
  case False
  then have "k \<notin> dom (snd (first_pass to_ns stats ([], Map.empty)))"
    by (simp add: first_pass_dom)
  with False show ?thesis by auto
qed

section \<open>The second pass and the final table\<close>

lemma root_step_eq:
  "root_step to_ns cov F s =
     (if root_emits to_ns cov F
      then add_all [root_contrib to_ns cov F] s else s)"
  by (auto simp: root_step_def Let_def root_emits_def root_contrib_def self_time_of_def
      key_of_def max_def)

lemma root_step_changes:
  "root_step to_ns cov F s \<noteq> s \<longleftrightarrow> root_emits to_ns cov F"
proof (cases "root_emits to_ns cov F")
  case False
  then show ?thesis by (simp add: root_step_eq)
next
  case True
  then have "(if cov_get cov (key_of F) = 0 then ncall F else 0) \<noteq> 0 \<or>
      self_time_of to_ns F - cov_get cov (key_of F) \<noteq> 0"
    by (auto simp: root_emits_def)
  from add_sample_changes [OF this] True show ?thesis
    by (simp add: root_step_eq)
qed

lemma root_step_ignores_children:
  "root_step to_ns cov (F\<lparr>children := ch\<rparr>) s = root_step to_ns cov F s"
  by (simp add: root_step_def make_frame_def Let_def)

lemma root_emits_remainder_nonneg:
  "root_emits to_ns cov F \<Longrightarrow> 0 \<le> self_time_of to_ns F - cov_get cov (key_of F)"
  by (auto simp: root_emits_def self_time_of_def)

lemma second_pass_eq:
  "second_pass to_ns cov stats s =
     add_all (map (root_contrib to_ns cov) (filter (root_emits to_ns cov) stats)) s"
  unfolding second_pass_def
  by (induction stats arbitrary: s) (auto simp: root_step_eq)

lemma final_samples_eq:
  "final_samples to_ns stats =
     add_all (map (edge_contrib to_ns) (edges stats) @
              map (root_contrib to_ns (snd (first_pass to_ns stats ([], Map.empty))))
                (filter (root_emits to_ns (snd (first_pass to_ns stats ([], Map.empty)))) stats)) []"
  by (simp add: final_samples_def Let_def second_pass_eq first_pass_samples)

text \<open>The table is a dictionary: no trace occurs twice.\<close>

lemma final_samples_distinct: "distinct (map fst (final_samples to_ns stats))"
  by (simp add: final_samples_eq distinct_add_all)

lemma sum_values_edge_leaf:
  "sum_values (\<lambda>t. length t = 2 \<and> hd t = make_frame F) (map (edge_contrib to_ns) es) =
     edge_cover to_ns (key_of F) es"
  by (induction es) (auto simp: edge_trace_def edge_cover_def make_frame_eq_iff)

lemma sum_counts_edge_leaf:
  "sum_counts (\<lambda>t. length t = 2 \<and> hd t = make_frame F) (map (edge_contrib to_ns) es) =
     sum_list (map (\<lambda>e. ncall (snd e)) (filter (\<lambda>e. key_of (snd e) = key_of F) es))"
  by (induction es) (auto simp: edge_trace_def make_frame_eq_iff)

lemma sum_values_edge_single:
  "sum_values (\<lambda>t. t = [f]) (map (edge_contrib to_ns) es) = 0"
  by (induction es) (auto simp: edge_trace_def)

lemma sum_counts_edge_single:
  "sum_counts (\<lambda>t. t = [f]) (map (edge_contrib to_ns) es) = 0"
  by (induction es) (auto simp: edge_trace_def)

lemma sum_values_root_pair:
  "sum_values (\<lambda>t. length t = 2 \<and> Q t) (map (root_contrib to_ns cov) fs) = 0"
  by (induction fs) auto

lemma sum_counts_root_pair:
  "sum_counts (\<lambda>t. length t = 2 \<and> Q t) (map (root_contrib to_ns cov) fs) = 0"
  by (induction fs) auto

lemma sum_values_root_other:
  "key_of F \<notin> key_of ` set fs \<Longrightarrow>
     sum_values (\<lambda>t. t = [make_frame F]) (map (root_contrib to_ns cov) (filter P fs)) = 0"
  by (induction fs) (auto simp: make_frame_eq_iff)

lemma sum_counts_root_other:
  "key_of F \<notin> key_of ` set fs \<Longrightarrow>
     sum_counts (\<lambda>t. t = [make_frame F]) (map (root_contrib to_ns cov) (filter P fs)) = 0"
  by (induction fs) (auto simp: make_frame_eq_iff)

lemma sum_values_root_own:
  "distinct (map key_of fs) \<Longrightarrow> F \<in> set fs \<Longrightarrow>
     sum_values (\<lambda>t. t = [make_frame F]) (map (root_contrib to_ns cov) (filter P fs)) =
       (if P F then self_time_of to_ns F - cov_get cov (key_of F) else 0)"
proof (induction fs)
  case Nil
  then show ?case by simp
next
  case (Cons G fs)
  show ?case
  proof (cases "G = F")
    case True
    with Cons.prems have "key_of F \<notin> key_of ` set fs" by auto
    from sum_values_root_other [OF this, of to_ns cov P] True
    show ?thesis by simp
  next
    case False
    with Cons.prems have "F \<in> set fs" "distinct (map key_of fs)" "key_of G \<noteq> key_of F"
      by auto
    with Cons.IH show ?thesis by (simp add: make_frame_eq_iff)
  qed
qed

lemma sum_counts_root_own:
  "distinct (map key_of fs) \<Longrightarrow> F \<in> set fs \<Longrightarrow>
     sum_counts (\<lambda>t. t = [make_frame F]) (map (root_contrib to_ns cov) (filter P fs)) =
       (if P F then (if cov_get cov (key_of F) = 0 then ncall F else 0) else 0)"
proof (induction fs)
  case Nil
  then show ?case by simp
next
  case (Cons G fs)
  show ?case
  proof (cases "G = F")
    case True
    with Cons.prems have "key_of F \<notin> key_of ` set fs" by auto
    from sum_counts_root_other [OF this, of to_ns cov P] True
    show ?thesis by simp
  next
    case False
    with Cons.prems have "F \<in> set fs" "distinct (map key_of fs)" "key_of G \<noteq> key_of F"
      by auto
    with Cons.IH show ?thesis by (simp add: make_frame_eq_iff)
  qed
qed

lemma final_keys:
  "fst ` set (final_samples to_ns stats) =
     edge_trace ` set (edges stats) \<union>
     (\<lambda>F. [make_frame F]) `
       {F \<in> set stats. root_emits to_ns (snd (first_pass to_ns stats ([], Map.empty))) F}"
  by (auto simp: final_samples_eq keys_add_all image_iff)

lemma final_has_root_iff:
  assumes "F \<in> set stats" and "distinct (map key_of stats)"
  shows "[make_frame F] \<in> fst ` set (final_samples to_ns stats) \<longleftrightarrow>
     root_emits to_ns (snd (first_pass to_ns stats ([], Map.empty))) F"
proof
  assume "[make_frame F] \<in> fst ` set (final_samples to_ns stats)"
  then obtain G where G: "G \<in> set stats" "make_frame G = make_frame F"
      "root_emits to_ns (snd (first_pass to_ns stats ([], Map.empty))) G"
    unfolding final_keys by (auto simp: edge_trace_def)
  from G(2) have "key_of G = key_of F" by (simp add: make_frame_eq_iff)
  with assms G(1) have "G = F"
    by (meson distinct_map inj_onD)
  with G(3) show "root_emits to_ns (snd (first_pass to_ns stats ([], Map.empty))) F"
    by simp
next
  assume "root_emits to_ns (snd (first_pass to_ns stats ([], Map.empty))) F"
  with assms(1) show "[make_frame F] \<in> fst ` set (final_samples to_ns stats)"
    unfolding final_keys by auto
qed

lemma final_value_single:
  assumes "distinct (map key_of stats)" "F \<in> set stats"
  shows "value_at (final_samples to_ns stats) [make_frame F] =
     (if root_emits to_ns (snd (first_pass to_ns stats ([], Map.empty))) F
      then self_time_of to_ns F - covered_by to_ns stats (key_of F) else 0)"
  using sum_values_root_own [OF assms]
  by (simp add: final_samples_eq value_at_add_all sum_values_edge_single covered_by_def)

lemma final_count_single:
  assumes "distinct (map key_of stats)" "F \<in> set stats"
  shows "count_at (final_samples to_ns stats) [make_frame F] =
     (if root_emits to_ns (snd (first_pass to_ns stats ([], Map.empty))) F
      then (if covered_by to_ns stats (key_of F) = 0 then ncall F else 0) else 0)"
  using sum_counts_root_own [OF assms]
  by (simp add: final_samples_eq count_at_add_all sum_counts_edge_single covered_by_def)

lemma final_values_leaf:
  "sum_values (\<lambda>t. length t = 2 \<and> hd t = make_frame F) (final_samples to_ns stats) =
     covered_by to_ns stats (key_of F)"
  by (simp add: final_samples_eq sum_values_add_all sum_values_edge_leaf sum_values_root_pair
      covered_by_eq)

lemma final_counts_leaf:
  "sum_counts (\<lambda>t. length t = 2 \<and> hd t = make_frame F) (final_samples to_ns stats) =
     sum_list (map (\<lambda>e. ncall (snd e)) (filter (\<lambda>e. key_of (snd e) = key_of F) (edges stats)))"
  by (simp add: final_samples_eq sum_counts_add_all sum_counts_edge_leaf sum_counts_root_pair)

subsection \<open>The concrete inputs, converted\<close>

lemma edges_AB: "edges [func_A, func_B] = [(func_A, edge_B)]"
  by (simp add: edges_def func_A_def func_B_def)

lemma final_AB:
  "final_samples exact_ns [func_A, func_B] =
     [([(''B'', ''app.py'', 5, 5), (''A'', ''app.py'', 1, 1)], (1, 10000000)),
      ([(''A'', ''app.py'', 1, 1)], (1, 6000000))]"
  by (simp add: conversion_defs input_defs)

lemma final_over:
  "final_samples exact_ns [func_A, func_B_short] =
     [([(''B'', ''app.py'', 5, 5), (''A'', ''app.py'', 1, 1)], (1, 10000000)),
      ([(''A'', ''app.py'', 1, 1)], (1, 6000000))]"
  by (simp add: conversion_defs input_defs)

lemma final_zero:
  "final_samples exact_ns [func_A_zero, func_B_zero] =
     [([(''B'', ''app.py'', 5, 5), (''A'', ''app.py'', 1, 1)], (1, 0)),
      ([(''A'', ''app.py'', 1, 1)], (1, 5000000)),
      ([(''B'', ''app.py'', 5, 5)], (1, 0))]"
  by (simp add: conversion_defs input_defs)

lemma edges_gap:
  "edges [func_A_gap, func_C_gap, func_B_gap] =
     [(func_A_gap, edge_B_5ms), (func_C_gap, edge_B_5ms)]"
  by (simp add: edges_def func_A_gap_def func_C_gap_def func_B_gap_def)

lemma final_gap:
  "final_samples exact_ns [func_A_gap, func_C_gap, func_B_gap] =
     [([(''B'', ''app.py'', 5, 5), (''A'', ''app.py'', 1, 1)], (1, 5000000)),
      ([(''B'', ''app.py'', 5, 5), (''C'', ''app.py'', 9, 9)], (1, 5000000)),
      ([(''A'', ''app.py'', 1, 1)], (1, 1000000)),
      ([(''C'', ''app.py'', 9, 9)], (1, 3000000)),
      ([(''B'', ''app.py'', 5, 5)], (0, 2000000))]"
  by (simp add: conversion_defs input_defs)

section \<open>Conservation of self-time (C1)\<close>

text \<open>
  Claim C1, as stated, fails. The input is \<open>A\<close> with one edge to \<open>B\<close> of 10 ms and
  the record of \<open>B\<close> with 5 ms of self-time. The remainder of \<open>B\<close> is negative and
  \<open>covered_ns\<close> is not 0, so the second pass adds nothing for \<open>B\<close>: the edge
  samples with leaf \<open>B\<close> sum to 10000000, there is no root sample, and
  \<open>max(0, nanoseconds(B.totalTime - B.subTime))\<close> is 5000000.
\<close>

theorem conservation_counterexample:
  "func_B_short \<in> set [func_A, func_B_short] \<and>
   sum_values (leaf_edge (make_frame func_B_short)) (final_samples exact_ns [func_A, func_B_short])
     + value_at (final_samples exact_ns [func_A, func_B_short]) [make_frame func_B_short]
   \<noteq> max 0 (exact_ns (ttot func_B_short) (tsub func_B_short))"
  unfolding final_over
  by (simp add: leaf_edge_def sum_values_def value_at_def make_frame_def input_defs)

text \<open>
  A second way in which the sum differs: two records with the same identity share one
  one-frame trace, and their remainders are added under it. The two lambdas of 2 ms and
  3 ms give one sample of 5000000 with count 2.
\<close>

lemma shared_identity_merges_root_samples:
  "key_of func_L1 = key_of func_L2 \<and>
   final_samples exact_ns [func_L1, func_L2] = [([(''<lambda>'', ''app.py'', 3, 3)], (2, 5000000))] \<and>
   max 0 (exact_ns (ttot func_L1) (tsub func_L1)) = 2000000"
  by (simp add: key_of_def conversion_defs func_L1_def func_L2_def exact_ns_def py_int_def)

text \<open>
  Claim C1, amended: for every function record \<open>F\<close> of an input whose records have
  pairwise distinct identities, the values of the two-frame samples with leaf frame
  \<open>Frame(F)\<close> plus the value of the one-frame sample of \<open>F\<close> (0 when there is
  none) equal the larger of \<open>max(0, nanoseconds(F.totalTime - F.subTime))\<close> and the
  coverage of \<open>F\<close>. So the sum is \<open>max(0, nanoseconds(F.totalTime - F.subTime))\<close>
  exactly whenever the edges do not cover more than that.
\<close>

theorem conservation_amended:
  assumes "F \<in> set stats" and "distinct (map key_of stats)"
  shows "sum_values (leaf_edge (make_frame F)) (final_samples to_ns stats)
           + value_at (final_samples to_ns stats) [make_frame F]
         = max (self_time_of to_ns F) (covered_by to_ns stats (key_of F))
       \<and> (covered_by to_ns stats (key_of F) \<le> self_time_of to_ns F \<longrightarrow>
           sum_values (leaf_edge (make_frame F)) (final_samples to_ns stats)
             + value_at (final_samples to_ns stats) [make_frame F]
           = max 0 (to_ns (ttot F) (tsub F)))"
proof -
  have leaf: "sum_values (leaf_edge (make_frame F)) (final_samples to_ns stats) =
      covered_by to_ns stats (key_of F)"
    using final_values_leaf [of F to_ns stats] by (simp add: leaf_edge_def [abs_def])
  have root: "value_at (final_samples to_ns stats) [make_frame F] =
      (if root_emits to_ns (snd (first_pass to_ns stats ([], Map.empty))) F
       then self_time_of to_ns F - covered_by to_ns stats (key_of F) else 0)"
    using assms by (simp add: final_value_single)
  have emits: "root_emits to_ns (snd (first_pass to_ns stats ([], Map.empty))) F \<longleftrightarrow>
      self_time_of to_ns F - covered_by to_ns stats (key_of F) > 0 \<or>
      (covered_by to_ns stats (key_of F) = 0 \<and> ncall F > 0)"
    by (simp add: root_emits_def covered_by_def)
  have nonneg: "0 \<le> self_time_of to_ns F"
    by (simp add: self_time_of_def)
  have main: "sum_values (leaf_edge (make_frame F)) (final_samples to_ns stats)
           + value_at (final_samples to_ns stats) [make_frame F]
         = max (self_time_of to_ns F) (covered_by to_ns stats (key_of F))"
    unfolding leaf root emits using nonneg by auto
  then show ?thesis
    by (simp add: self_time_of_def)
qed

text \<open>
  Claim C1, amended, at \<open>B\<close> of the input \<open>[A, B]\<close>: the edge covers the 10 ms of
  \<open>B\<close>, both sides are 10000000.
\<close>

theorem conservation_amended_witness:
  "func_B \<in> set [func_A, func_B] \<and> distinct (map key_of [func_A, func_B]) \<and>
   covered_by exact_ns [func_A, func_B] (key_of func_B) \<le> self_time_of exact_ns func_B \<and>
   sum_values (leaf_edge (make_frame func_B)) (final_samples exact_ns [func_A, func_B])
     + value_at (final_samples exact_ns [func_A, func_B]) [make_frame func_B]
   = 10000000 \<and>
   max 0 (exact_ns (ttot func_B) (tsub func_B)) = 10000000"
proof -
  have h1: "func_B \<in> set [func_A, func_B]" by simp
  have h2: "distinct (map key_of [func_A, func_B])"
    by (simp add: key_of_def input_defs)
  have h3: "covered_by exact_ns [func_A, func_B] (key_of func_B) \<le> self_time_of exact_ns func_B"
    by (simp add: covered_by_def self_time_of_def key_of_def conversion_defs input_defs)
  have h4: "max 0 (exact_ns (ttot func_B) (tsub func_B)) = 10000000"
    by (simp add: input_defs)
  show ?thesis
    using conservation_amended [OF h1 h2, of exact_ns] h1 h2 h3 h4 by simp
qed

section \<open>What the encoder receives (C2)\<close>

text \<open>
  Claim C2: the metadata handed to the encoder is the profile kind \<open>CPU\<close> for the clock
  \<open>cpu\<close> and \<open>WALL\<close> otherwise, the unit \<open>nanoseconds\<close>, the period 1 and the
  duration. On every input the samples, the kind, the period and the duration are as
  claimed, and the unit argument of the call is \<open>count\<close>, not \<open>nanoseconds\<close>.
\<close>

theorem populate_profile_unit_is_count:
  "arg_unit (convert_to_pprof to_ns self stats duration_ns) = ''count'' \<and>
   arg_unit (convert_to_pprof to_ns self stats duration_ns) \<noteq> ''nanoseconds'' \<and>
   arg_samples (convert_to_pprof to_ns self stats duration_ns) = final_samples to_ns stats \<and>
   arg_profile_type (convert_to_pprof to_ns self stats duration_ns) =
     (if clock_type self = ''cpu'' then ''CPU'' else ''WALL'') \<and>
   arg_period (convert_to_pprof to_ns self stats duration_ns) = 1 \<and>
   arg_duration_ns (convert_to_pprof to_ns self stats duration_ns) = duration_ns"
  by (simp add: convert_to_pprof_def Let_def)

section \<open>The edge pass (C3)\<close>

text \<open>
  Claim C3: for a caller \<open>F\<close> and a child \<open>E\<close>, one step of the edge pass adds
  \<open>(E.ncall, max(0, nanoseconds(E.ttot - E.tsub)))\<close> to the entry of the trace
  \<open>(Frame(E), Frame(F))\<close>, callee at index 0, and the same nanoseconds to the coverage
  of the identity of \<open>E\<close>. Over the whole pass, from the empty dictionaries, a trace
  is present exactly when it is the trace of an edge, with the sums of the counts and
  of the clamped self-times of all edges with that trace, and the coverage of an
  identity is present exactly when it is the callee of an edge, with the sum over all
  edges to that callee, whoever the caller is.
\<close>

theorem edge_pass_accumulates:
  fixes F :: "'t func_stat" and E :: "'t stat"
  shows
  "map_of (fst (edge_step to_ns (make_frame F) E (s, cov))) =
     (map_of s)([make_frame E, make_frame F] \<mapsto>
        (count_at s [make_frame E, make_frame F] + ncall E,
         value_at s [make_frame E, make_frame F] + max 0 (to_ns (ttot E) (tsub E))))
   \<and> snd (edge_step to_ns (make_frame F) E (s, cov)) =
     cov(key_of E \<mapsto> cov_get cov (key_of E) + max 0 (to_ns (ttot E) (tsub E)))
   \<and> map_of (fst (first_pass to_ns stats ([], Map.empty))) t =
     (if t \<in> edge_trace ` set (edges stats)
      then Some (sum_list (map (\<lambda>e. ncall (snd e)) (filter (\<lambda>e. edge_trace e = t) (edges stats))),
                 sum_list (map (\<lambda>e. max 0 (to_ns (ttot (snd e)) (tsub (snd e))))
                            (filter (\<lambda>e. edge_trace e = t) (edges stats))))
      else None)
   \<and> snd (first_pass to_ns stats ([], Map.empty)) k =
     (if k \<in> (\<lambda>e. key_of (snd e)) ` set (edges stats)
      then Some (sum_list (map (\<lambda>e. max 0 (to_ns (ttot (snd e)) (tsub (snd e))))
                            (filter (\<lambda>e. key_of (snd e) = k) (edges stats))))
      else None)"
  using first_pass_lookup [of to_ns stats t] first_pass_coverage [of to_ns stats k]
  by (simp add: edge_step_eq map_of_add_sample self_time_of_def)

text \<open>Claim C3 at the edge from \<open>A\<close> to \<open>B\<close> of the input \<open>[A, B]\<close>.\<close>

theorem edge_pass_accumulates_witness:
  "map_of (fst (edge_step exact_ns (make_frame func_A) edge_B ([], Map.empty)))
     [make_frame edge_B, make_frame func_A] = Some (1, 10000000) \<and>
   map_of (fst (first_pass exact_ns [func_A, func_B] ([], Map.empty)))
     [make_frame edge_B, make_frame func_A] = Some (1, 10000000) \<and>
   snd (first_pass exact_ns [func_A, func_B] ([], Map.empty)) (key_of edge_B) = Some 10000000 \<and>
   snd (first_pass exact_ns [func_A, func_B] ([], Map.empty)) (key_of func_A) = None"
proof -
  have n: "ncall edge_B = 1" "max 0 (exact_ns (ttot edge_B) (tsub edge_B)) = 10000000"
    by (simp_all add: input_defs)
  have k: "key_of func_A \<noteq> key_of edge_B"
    by (simp add: key_of_def input_defs)
  show ?thesis
    using edge_pass_accumulates [of exact_ns func_A edge_B "[]" Map.empty "[func_A, func_B]"
        "[make_frame edge_B, make_frame func_A]" "key_of edge_B"]
      edge_pass_accumulates [of exact_ns func_A edge_B "[]" Map.empty "[func_A, func_B]"
        "[make_frame edge_B, make_frame func_A]" "key_of func_A"]
      n k
    by (simp add: edges_AB edge_trace_def)
qed

section \<open>The root pass (C4, C5)\<close>

text \<open>
  Claim C4: the root pass emits the one-frame trace \<open>(Frame(F),)\<close> if and only if
  \<open>remainderNs > 0\<close> or \<open>coveredNs = 0\<close> and \<open>F.ncall > 0\<close>. One step of the pass
  changes the table exactly under this condition, and then enters the trace
  \<open>(Frame(F),)\<close>; in the final table of an input with pairwise distinct identities
  the trace of a record \<open>F\<close> of the input is present exactly under this condition.
\<close>

theorem root_pass_emits_iff:
  "(root_step to_ns cov F s \<noteq> s \<longleftrightarrow>
      max 0 (to_ns (ttot F) (tsub F)) - cov_get cov (key_of F) > 0 \<or>
      (cov_get cov (key_of F) = 0 \<and> ncall F > 0))
   \<and> fst ` set (root_step to_ns cov F s) =
      (if max 0 (to_ns (ttot F) (tsub F)) - cov_get cov (key_of F) > 0 \<or>
          (cov_get cov (key_of F) = 0 \<and> ncall F > 0)
       then insert [make_frame F] (fst ` set s) else fst ` set s)
   \<and> (F \<in> set stats \<and> distinct (map key_of stats) \<longrightarrow>
       ([make_frame F] \<in> fst ` set (final_samples to_ns stats) \<longleftrightarrow>
          max 0 (to_ns (ttot F) (tsub F)) - covered_by to_ns stats (key_of F) > 0 \<or>
          (covered_by to_ns stats (key_of F) = 0 \<and> ncall F > 0)))"
  using root_step_changes [of to_ns cov F s] final_has_root_iff [of F stats to_ns]
  by (simp add: root_step_eq keys_add_sample root_emits_def self_time_of_def covered_by_def)

text \<open>
  Claim C4 on the input \<open>[A, B]\<close>: \<open>A\<close> is not covered and was called, its trace is
  present; \<open>B\<close> is covered by 10000000 of its 10000000, its trace is absent.
\<close>

theorem root_pass_emits_iff_witness:
  "func_A \<in> set [func_A, func_B] \<and> func_B \<in> set [func_A, func_B] \<and>
   distinct (map key_of [func_A, func_B]) \<and>
   [make_frame func_A] \<in> fst ` set (final_samples exact_ns [func_A, func_B]) \<and>
   [make_frame func_B] \<notin> fst ` set (final_samples exact_ns [func_A, func_B]) \<and>
   covered_by exact_ns [func_A, func_B] (key_of func_A) = 0 \<and> ncall func_A > 0 \<and>
   covered_by exact_ns [func_A, func_B] (key_of func_B) = 10000000 \<and>
   max 0 (exact_ns (ttot func_B) (tsub func_B)) = 10000000"
proof -
  have h2: "distinct (map key_of [func_A, func_B])"
    by (simp add: key_of_def input_defs)
  have cA: "covered_by exact_ns [func_A, func_B] (key_of func_A) = 0"
    by (simp add: covered_by_def key_of_def conversion_defs input_defs)
  have cB: "covered_by exact_ns [func_A, func_B] (key_of func_B) = 10000000"
    by (simp add: covered_by_def key_of_def conversion_defs input_defs)
  have nA: "ncall func_A > 0" by (simp add: input_defs)
  have tB: "max 0 (exact_ns (ttot func_B) (tsub func_B)) = 10000000"
    by (simp add: input_defs)
  show ?thesis
    using root_pass_emits_iff [of exact_ns Map.empty func_A "[]" "[func_A, func_B]"]
      root_pass_emits_iff [of exact_ns Map.empty func_B "[]" "[func_A, func_B]"]
      h2 cA cB nA tB
    by simp
qed

text \<open>
  Claim C5: when the root pass emits the sample of \<open>F\<close>, its count is \<open>F.ncall\<close> if
  \<open>coveredNs = 0\<close> and 0 otherwise (and its value is the remainder). Here
  \<open>coveredNs\<close> is what the dictionary holds under the identity of \<open>F\<close>, 0 when it
  holds nothing, and after the first pass that is the sum of the clamped self-times of
  the edges whose callee has the identity of \<open>F\<close>. A step that emits adds this count
  and this value under \<open>(Frame(F),)\<close>; in the final table of an input with pairwise
  distinct identities, where the sample under \<open>(Frame(F),)\<close> is that of \<open>F\<close> alone,
  they are the count and the value of the sample.
\<close>

theorem root_sample_count_policy:
  "(root_step to_ns cov F s \<noteq> s \<longrightarrow>
      count_at (root_step to_ns cov F s) [make_frame F] =
        count_at s [make_frame F] +
          (if (case cov (name F, module F, lineno F) of None \<Rightarrow> 0 | Some c \<Rightarrow> c) = 0
           then ncall F else 0)
      \<and> value_at (root_step to_ns cov F s) [make_frame F] =
        value_at s [make_frame F] +
          (max 0 (to_ns (ttot F) (tsub F)) -
           (case cov (name F, module F, lineno F) of None \<Rightarrow> 0 | Some c \<Rightarrow> c)))
   \<and> covered_by to_ns stats (key_of F) =
       sum_list (map (\<lambda>e. max 0 (to_ns (ttot (snd e)) (tsub (snd e))))
         (filter (\<lambda>e. (name (snd e), module (snd e), lineno (snd e)) =
                       (name F, module F, lineno F)) (edges stats)))
   \<and> (F \<in> set stats \<and> distinct (map key_of stats)
        \<and> [make_frame F] \<in> fst ` set (final_samples to_ns stats) \<longrightarrow>
      (covered_by to_ns stats (key_of F) = 0 \<longrightarrow>
         count_at (final_samples to_ns stats) [make_frame F] = ncall F)
      \<and> (covered_by to_ns stats (key_of F) \<noteq> 0 \<longrightarrow>
         count_at (final_samples to_ns stats) [make_frame F] = 0)
      \<and> map_of (final_samples to_ns stats) [make_frame F] =
         Some (if covered_by to_ns stats (key_of F) = 0 then ncall F else 0,
               max 0 (to_ns (ttot F) (tsub F)) - covered_by to_ns stats (key_of F)))"
proof -
  have read: "(case cov (name F, module F, lineno F) of None \<Rightarrow> 0 | Some c \<Rightarrow> c) =
      cov_get cov (key_of F)"
    by (simp add: cov_get_def key_of_def)
  have step: "count_at (root_step to_ns cov F s) [make_frame F] =
        count_at s [make_frame F] + (if cov_get cov (key_of F) = 0 then ncall F else 0)
      \<and> value_at (root_step to_ns cov F s) [make_frame F] =
        value_at s [make_frame F] + (max 0 (to_ns (ttot F) (tsub F)) - cov_get cov (key_of F))"
    if "root_step to_ns cov F s \<noteq> s"
  proof -
    from that have "root_emits to_ns cov F"
      by (simp add: root_step_changes)
    then show ?thesis
      by (simp add: root_step_eq count_at_add_sample value_at_add_sample self_time_of_def)
  qed
  have sum: "covered_by to_ns stats (key_of F) =
       sum_list (map (\<lambda>e. max 0 (to_ns (ttot (snd e)) (tsub (snd e))))
         (filter (\<lambda>e. (name (snd e), module (snd e), lineno (snd e)) =
                       (name F, module F, lineno F)) (edges stats)))"
    using covered_by_eq [of to_ns stats "key_of F"] edge_cover_filter [of to_ns "key_of F" "edges stats"]
    by (simp add: self_time_of_def key_of_def)
  have table: "(covered_by to_ns stats (key_of F) = 0 \<longrightarrow>
         count_at (final_samples to_ns stats) [make_frame F] = ncall F)
      \<and> (covered_by to_ns stats (key_of F) \<noteq> 0 \<longrightarrow>
         count_at (final_samples to_ns stats) [make_frame F] = 0)
      \<and> map_of (final_samples to_ns stats) [make_frame F] =
         Some (if covered_by to_ns stats (key_of F) = 0 then ncall F else 0,
               max 0 (to_ns (ttot F) (tsub F)) - covered_by to_ns stats (key_of F))"
    if a: "F \<in> set stats" "distinct (map key_of stats)"
      "[make_frame F] \<in> fst ` set (final_samples to_ns stats)"
  proof -
    have emits: "root_emits to_ns (snd (first_pass to_ns stats ([], Map.empty))) F"
      using a final_has_root_iff [of F stats to_ns] by blast
    have c: "count_at (final_samples to_ns stats) [make_frame F] =
        (if covered_by to_ns stats (key_of F) = 0 then ncall F else 0)"
      using a(1,2) emits by (simp add: final_count_single)
    have v: "value_at (final_samples to_ns stats) [make_frame F] =
        self_time_of to_ns F - covered_by to_ns stats (key_of F)"
      using a(1,2) emits by (simp add: final_value_single)
    show ?thesis
      using a(3) c v
      by (simp add: map_of_count_value [of "final_samples to_ns stats"] self_time_of_def)
  qed
  show ?thesis
    unfolding read using step sum table by blast
qed

text \<open>
  Claim C5 on the input where \<open>A\<close> and \<open>C\<close> each call \<open>B\<close> for 5 ms and \<open>B\<close> has
  12 ms of its own. \<open>B\<close> is covered by 10000000 and its sample is emitted for the
  remainder 2000000 with count 0, not with \<open>B.ncall = 2\<close>; \<open>A\<close> is not covered and
  its sample has count \<open>A.ncall = 1\<close>. The step for \<open>B\<close> alone, on a dictionary that
  holds 10000000 for \<open>B\<close>, adds count 0 and value 2000000.
\<close>

theorem root_sample_count_policy_witness:
  "func_B_gap \<in> set [func_A_gap, func_C_gap, func_B_gap] \<and>
   func_A_gap \<in> set [func_A_gap, func_C_gap, func_B_gap] \<and>
   distinct (map key_of [func_A_gap, func_C_gap, func_B_gap]) \<and>
   [make_frame func_B_gap] \<in> fst ` set (final_samples exact_ns [func_A_gap, func_C_gap, func_B_gap]) \<and>
   [make_frame func_A_gap] \<in> fst ` set (final_samples exact_ns [func_A_gap, func_C_gap, func_B_gap]) \<and>
   covered_by exact_ns [func_A_gap, func_C_gap, func_B_gap] (key_of func_B_gap) = 10000000 \<and>
   ncall func_B_gap = 2 \<and>
   count_at (final_samples exact_ns [func_A_gap, func_C_gap, func_B_gap]) [make_frame func_B_gap] = 0 \<and>
   map_of (final_samples exact_ns [func_A_gap, func_C_gap, func_B_gap]) [make_frame func_B_gap] =
     Some (0, 2000000) \<and>
   covered_by exact_ns [func_A_gap, func_C_gap, func_B_gap] (key_of func_A_gap) = 0 \<and>
   ncall func_A_gap = 1 \<and>
   count_at (final_samples exact_ns [func_A_gap, func_C_gap, func_B_gap]) [make_frame func_A_gap] = 1 \<and>
   root_step exact_ns [(''B'', ''app.py'', 5) \<mapsto> 10000000] func_B_gap [] \<noteq> [] \<and>
   count_at (root_step exact_ns [(''B'', ''app.py'', 5) \<mapsto> 10000000] func_B_gap [])
     [make_frame func_B_gap] = 0 \<and>
   value_at (root_step exact_ns [(''B'', ''app.py'', 5) \<mapsto> 10000000] func_B_gap [])
     [make_frame func_B_gap] = 2000000"
proof -
  have h1: "func_B_gap \<in> set [func_A_gap, func_C_gap, func_B_gap]"
      "func_A_gap \<in> set [func_A_gap, func_C_gap, func_B_gap]"
    by simp_all
  have h2: "distinct (map key_of [func_A_gap, func_C_gap, func_B_gap])"
    by (simp add: key_of_def input_defs)
  have h3: "[make_frame func_B_gap] \<in>
        fst ` set (final_samples exact_ns [func_A_gap, func_C_gap, func_B_gap])"
      "[make_frame func_A_gap] \<in>
        fst ` set (final_samples exact_ns [func_A_gap, func_C_gap, func_B_gap])"
    unfolding final_gap by (simp_all add: make_frame_def input_defs)
  have n: "ncall func_B_gap = 2" "ncall func_A_gap = 1"
      "max 0 (exact_ns (ttot func_B_gap) (tsub func_B_gap)) = 12000000"
      "max 0 (exact_ns (ttot edge_B_5ms) (tsub edge_B_5ms)) = 5000000"
    by (simp_all add: input_defs)
  have k: "name edge_B_5ms = ''B''" "module edge_B_5ms = ''app.py''" "lineno edge_B_5ms = 5"
      "name func_B_gap = ''B''" "module func_B_gap = ''app.py''" "lineno func_B_gap = 5"
      "name func_A_gap = ''A''" "module func_A_gap = ''app.py''" "lineno func_A_gap = 1"
    by (simp_all add: input_defs)
  have st: "root_step exact_ns [(''B'', ''app.py'', 5) \<mapsto> 10000000] func_B_gap [] \<noteq> []"
    by (simp add: conversion_defs input_defs)
  show ?thesis
    using root_sample_count_policy [of exact_ns "[(''B'', ''app.py'', 5) \<mapsto> 10000000]"
        func_B_gap "[]" "[func_A_gap, func_C_gap, func_B_gap]"]
      root_sample_count_policy [of exact_ns Map.empty
        func_A_gap "[]" "[func_A_gap, func_C_gap, func_B_gap]"]
      h1 h2 h3 n k st
    by (simp add: edges_gap)
qed

section \<open>Counts (C6)\<close>

text \<open>
  Claim C6: the counts of all samples never sum to more than the invocation counts of
  the input records. On the input where \<open>A\<close> calls \<open>B\<close> once and no time is measured
  in \<open>B\<close>, the two records have 2 invocations and the three samples have count 3:
  the edge with value 0 leaves the coverage of \<open>B\<close> at 0, and the root pass counts
  the call of \<open>B\<close> again.
\<close>

theorem count_inflation_on_zero_time_edge:
  "total_count (final_samples exact_ns [func_A_zero, func_B_zero]) = 3 \<and>
   sum_list (map ncall [func_A_zero, func_B_zero]) = 2"
  unfolding final_zero by (simp add: total_count_def input_defs)

section \<open>No negative sample (C7)\<close>

text \<open>
  Claim C7: no entry of the final table has a negative count or a negative value. The
  values are non-negative on every input; the counts are sums of the \<open>ncall\<close> fields
  of the input, which are invocation counts, and are non-negative when those are.
\<close>

theorem samples_nonnegative:
  "(\<forall>e \<in> set (final_samples to_ns stats). 0 \<le> snd (snd e))
   \<and> ((\<forall>F \<in> set stats. 0 \<le> ncall F) \<and> (\<forall>e \<in> set (edges stats). 0 \<le> ncall (snd e))
        \<longrightarrow> (\<forall>e \<in> set (final_samples to_ns stats). 0 \<le> fst (snd e)))"
proof (intro conjI impI)
  show "\<forall>e \<in> set (final_samples to_ns stats). 0 \<le> snd (snd e)"
    unfolding final_samples_eq
    by (rule add_all_values_nonneg)
       (auto simp: self_time_of_def dest: root_emits_remainder_nonneg)
next
  assume "(\<forall>F \<in> set stats. 0 \<le> ncall F) \<and> (\<forall>e \<in> set (edges stats). 0 \<le> ncall (snd e))"
  then show "\<forall>e \<in> set (final_samples to_ns stats). 0 \<le> fst (snd e)"
    unfolding final_samples_eq
    by (intro add_all_counts_nonneg) auto
qed

text \<open>Claim C7 on the input \<open>[A, B]\<close>, whose table is not empty.\<close>

theorem samples_nonnegative_witness:
  "0 \<le> ncall func_A \<and> 0 \<le> ncall func_B \<and> 0 \<le> ncall edge_B \<and>
   edges [func_A, func_B] = [(func_A, edge_B)] \<and>
   final_samples exact_ns [func_A, func_B] \<noteq> [] \<and>
   list_all (\<lambda>e. 0 \<le> fst (snd e) \<and> 0 \<le> snd (snd e)) (final_samples exact_ns [func_A, func_B])"
proof -
  have n: "0 \<le> ncall func_A" "0 \<le> ncall func_B" "0 \<le> ncall edge_B"
    by (simp_all add: input_defs)
  have h1: "\<forall>F \<in> set [func_A, func_B]. 0 \<le> ncall F"
    using n by simp
  have h2: "\<forall>e \<in> set (edges [func_A, func_B]). 0 \<le> ncall (snd e)"
    using n by (simp add: edges_AB)
  have h3: "final_samples exact_ns [func_A, func_B] \<noteq> []"
    unfolding final_AB by simp
  have "\<forall>e \<in> set (final_samples exact_ns [func_A, func_B]). 0 \<le> fst (snd e) \<and> 0 \<le> snd (snd e)"
    using samples_nonnegative [of exact_ns "[func_A, func_B]"] h1 h2 by blast
  then have "list_all (\<lambda>e. 0 \<le> fst (snd e) \<and> 0 \<le> snd (snd e))
      (final_samples exact_ns [func_A, func_B])"
    by (simp add: list_all_iff)
  with n h3 show ?thesis by (simp add: edges_AB)
qed

section \<open>A record without \<open>children\<close> (C8)\<close>

text \<open>
  Claim C8: a record \<open>F\<close> without the attribute \<open>children\<close> leaves the state of the
  edge pass as it is, so the pass over an input that contains \<open>F\<close> ends as the pass
  over the input without it; the root pass still takes its step for \<open>F\<close> in place;
  and the conversion returns what it returns for \<open>F\<close> with an empty \<open>children\<close>.
\<close>

theorem missing_children_is_no_edges:
  assumes "children F = None"
  shows "edges_of_func to_ns F st = st
       \<and> first_pass to_ns (xs @ F # ys) st = first_pass to_ns (xs @ ys) st
       \<and> final_samples to_ns (xs @ F # ys) =
           (let st' = first_pass to_ns (xs @ ys) ([], Map.empty)
            in second_pass to_ns (snd st') ys
                 (root_step to_ns (snd st') F (second_pass to_ns (snd st') xs (fst st'))))
       \<and> final_samples to_ns (xs @ F # ys) = final_samples to_ns (xs @ F\<lparr>children := Some []\<rparr> # ys)
       \<and> convert_to_pprof to_ns self (xs @ F # ys) duration_ns =
           convert_to_pprof to_ns self (xs @ F\<lparr>children := Some []\<rparr> # ys) duration_ns"
proof -
  have a: "edges_of_func to_ns F st = st" for st
    using assms by (simp add: edges_of_func_def)
  have b: "first_pass to_ns (xs @ F # ys) st = first_pass to_ns (xs @ ys) st" for st
    by (simp add: first_pass_def a)
  have b': "first_pass to_ns (xs @ F\<lparr>children := Some []\<rparr> # ys) st = first_pass to_ns (xs @ ys) st"
    for st
    by (simp add: first_pass_def edges_of_func_def)
  have c: "final_samples to_ns (xs @ F # ys) =
           (let st' = first_pass to_ns (xs @ ys) ([], Map.empty)
            in second_pass to_ns (snd st') ys
                 (root_step to_ns (snd st') F (second_pass to_ns (snd st') xs (fst st'))))"
    by (simp add: final_samples_def b Let_def second_pass_def)
  have d: "final_samples to_ns (xs @ F\<lparr>children := Some []\<rparr> # ys) =
           (let st' = first_pass to_ns (xs @ ys) ([], Map.empty)
            in second_pass to_ns (snd st') ys
                 (root_step to_ns (snd st') F (second_pass to_ns (snd st') xs (fst st'))))"
    by (simp add: final_samples_def b' Let_def second_pass_def root_step_ignores_children)
  show ?thesis
    using a b c d by (simp add: convert_to_pprof_def)
qed

text \<open>Claim C8 at \<open>func_B\<close>, which has no \<open>children\<close>, after \<open>A\<close>.\<close>

theorem missing_children_is_no_edges_witness:
  "children func_B = None \<and>
   first_pass exact_ns ([func_A] @ func_B # []) ([], Map.empty) =
     first_pass exact_ns ([func_A] @ []) ([], Map.empty) \<and>
   final_samples exact_ns ([func_A] @ func_B # []) =
     final_samples exact_ns ([func_A] @ func_B\<lparr>children := Some []\<rparr> # [])"
proof -
  have h: "children func_B = None" by (simp add: input_defs)
  show ?thesis
    using missing_children_is_no_edges [OF h, of exact_ns "([], Map.empty)" "[func_A]" "[]"] h
    by blast
qed

section \<open>Scenario A (C9)\<close>

text \<open>
  Claim C9: the single record \<open>main\<close> with no children, \<open>ttot = tsub = 0\<close> and
  \<open>ncall = 1\<close> converts to exactly one sample, with trace \<open>(main,)\<close>, count 1 and
  value 0. Of the conversion to nanoseconds only \<open>int((0 - 0) * 1e9) = 0\<close> is used;
  no children is a missing or an empty \<open>children\<close>.
\<close>

theorem scenario_single_main:
  assumes "to_ns 0 0 = 0" and "ch = None \<or> ch = Some []"
  shows "arg_samples (convert_to_pprof to_ns self
            [\<lparr>name = ''main'', module = m, lineno = l, ttot = 0, tsub = 0, ncall = 1,
              children = ch\<rparr>] duration_ns)
         = [([(''main'', m, l, l)], (1, 0))]"
  using assms by (auto simp: convert_to_pprof_def conversion_defs)

text \<open>Claim C9 with the exact conversion, the clock \<open>cpu\<close> and a session of one second.\<close>

theorem scenario_single_main_witness:
  "exact_ns 0 0 = 0 \<and>
   arg_samples (convert_to_pprof exact_ns \<lparr>clock_type = ''cpu''\<rparr>
            [\<lparr>name = ''main'', module = ''app.py'', lineno = 1, ttot = 0, tsub = 0, ncall = 1,
              children = Some []\<rparr>] 1000000000)
         = [([(''main'', ''app.py'', 1, 1)], (1, 0))]"
proof -
  have h: "exact_ns 0 0 = 0" by (simp add: exact_ns_def py_int_def)
  have c: "Some [] = None \<or> Some [] = (Some [] :: real stat list option)" by simp
  show ?thesis
    using scenario_single_main [of exact_ns "Some []", OF h c] h by simp
qed

section \<open>Edges of zero self-time (C10)\<close>

text \<open>
  Claim C10: a function \<open>F\<close> whose incoming edges all have clamped self-time 0 has
  coverage 0, and with \<open>F.ncall > 0\<close> the step of the root pass for \<open>F\<close> adds the
  full \<open>F.ncall\<close> under \<open>(Frame(F),)\<close>; when \<open>F\<close> is a record of an input with
  pairwise distinct identities, its one-frame sample is \<open>(F.ncall, self-time)\<close>. The
  two-frame samples of its incoming edges are in the table, and their counts sum to
  the counts of those edges.
\<close>

theorem zero_time_edges_leave_root_uncovered:
  assumes "\<forall>e \<in> set (edges stats). key_of (snd e) = key_of F \<longrightarrow>
           max 0 (to_ns (ttot (snd e)) (tsub (snd e))) = 0"
    and "0 < ncall F"
  shows "covered_by to_ns stats (key_of F) = 0
       \<and> count_at (root_step to_ns (snd (first_pass to_ns stats ([], Map.empty))) F s)
             [make_frame F] = count_at s [make_frame F] + ncall F
       \<and> (F \<in> set stats \<and> distinct (map key_of stats) \<longrightarrow>
             map_of (final_samples to_ns stats) [make_frame F] =
               Some (ncall F, max 0 (to_ns (ttot F) (tsub F))))
       \<and> (\<forall>e \<in> set (edges stats). key_of (snd e) = key_of F \<longrightarrow>
             edge_trace e \<in> fst ` set (final_samples to_ns stats))
       \<and> sum_counts (leaf_edge (make_frame F)) (final_samples to_ns stats) =
           sum_list (map (\<lambda>e. ncall (snd e))
             (filter (\<lambda>e. key_of (snd e) = key_of F) (edges stats)))"
proof -
  have cov: "covered_by to_ns stats (key_of F) = 0"
    using assms(1) by (simp add: covered_by_eq edge_cover_zero self_time_of_def)
  then have emits: "root_emits to_ns (snd (first_pass to_ns stats ([], Map.empty))) F"
    using assms(2) by (simp add: root_emits_def covered_by_def)
  have step: "count_at (root_step to_ns (snd (first_pass to_ns stats ([], Map.empty))) F s)
      [make_frame F] = count_at s [make_frame F] + ncall F"
    using emits cov by (simp add: root_step_eq count_at_add_sample covered_by_def)
  have root: "map_of (final_samples to_ns stats) [make_frame F] =
      Some (ncall F, max 0 (to_ns (ttot F) (tsub F)))"
    if a: "F \<in> set stats" "distinct (map key_of stats)"
  proof -
    have key: "[make_frame F] \<in> fst ` set (final_samples to_ns stats)"
      using a emits final_has_root_iff [of F stats to_ns] by blast
    have c: "count_at (final_samples to_ns stats) [make_frame F] = ncall F"
      using a emits cov by (simp add: final_count_single)
    have v: "value_at (final_samples to_ns stats) [make_frame F] = self_time_of to_ns F"
      using a emits cov by (simp add: final_value_single)
    show ?thesis
      using key c v
      by (simp add: map_of_count_value [of "final_samples to_ns stats"] self_time_of_def)
  qed
  have edges_in: "\<forall>e \<in> set (edges stats). edge_trace e \<in> fst ` set (final_samples to_ns stats)"
    unfolding final_keys by simp
  have counts: "sum_counts (leaf_edge (make_frame F)) (final_samples to_ns stats) =
      sum_list (map (\<lambda>e. ncall (snd e))
        (filter (\<lambda>e. key_of (snd e) = key_of F) (edges stats)))"
    using final_counts_leaf [of F to_ns stats] by (simp add: leaf_edge_def [abs_def])
  show ?thesis
    using cov step root edges_in counts by simp
qed

text \<open>
  Claim C10 at \<open>B\<close> of the input where no time is measured in \<open>B\<close>: one incoming
  edge with count 1, and a root sample with count 1 again.
\<close>

theorem zero_time_edges_leave_root_uncovered_witness:
  "func_B_zero \<in> set [func_A_zero, func_B_zero] \<and>
   distinct (map key_of [func_A_zero, func_B_zero]) \<and>
   edges [func_A_zero, func_B_zero] = [(func_A_zero, edge_B_zero)] \<and>
   key_of edge_B_zero = key_of func_B_zero \<and>
   max 0 (exact_ns (ttot edge_B_zero) (tsub edge_B_zero)) = 0 \<and>
   0 < ncall func_B_zero \<and>
   map_of (final_samples exact_ns [func_A_zero, func_B_zero]) [make_frame func_B_zero] =
     Some (1, 0) \<and>
   sum_counts (leaf_edge (make_frame func_B_zero)) (final_samples exact_ns [func_A_zero, func_B_zero])
     = 1"
proof -
  have h1: "func_B_zero \<in> set [func_A_zero, func_B_zero]" by simp
  have h2: "distinct (map key_of [func_A_zero, func_B_zero])"
    by (simp add: key_of_def input_defs)
  have e: "edges [func_A_zero, func_B_zero] = [(func_A_zero, edge_B_zero)]"
    by (simp add: edges_def func_A_zero_def func_B_zero_def)
  have z: "max 0 (exact_ns (ttot edge_B_zero) (tsub edge_B_zero)) = 0"
    by (simp add: input_defs)
  have h3: "\<forall>e \<in> set (edges [func_A_zero, func_B_zero]). key_of (snd e) = key_of func_B_zero \<longrightarrow>
      max 0 (exact_ns (ttot (snd e)) (tsub (snd e))) = 0"
    unfolding e using z by simp
  have h4: "0 < ncall func_B_zero" by (simp add: input_defs)
  have k: "key_of edge_B_zero = key_of func_B_zero"
    by (simp add: key_of_def input_defs)
  have n: "ncall func_B_zero = 1" "ncall edge_B_zero = 1"
      "max 0 (exact_ns (ttot func_B_zero) (tsub func_B_zero)) = 0"
    by (simp_all add: input_defs)
  show ?thesis
    using zero_time_edges_leave_root_uncovered [OF h3 h4, of "[]"] h1 h2 z h4 k n
    by (simp add: e)
qed

end
